theory Spec2Isabelle
  imports Complex_Main "HOL-Library.Sublist"
begin

section \<open>Python values as the pairing code sees them\<close>

text \<open>
  \<^verbatim>\<open>telegram_setup.py\<close> reads the HTTP responses of the Telegram bot API with
  \<^verbatim>\<open>json.loads\<close> and walks the parsed value with \<^verbatim>\<open>[]\<close>, \<^verbatim>\<open>.get\<close>, \<^verbatim>\<open>in\<close>,
  \<^verbatim>\<open>.strip()\<close> and \<^verbatim>\<open>str()\<close>. The parsed value is modelled by the datatype below; a
  dict is an association list in which the first binding of a key is the effective one.
  Strings are HOL strings, a character standing for the code point of the same number
  (code points below 256). JSON numbers with a fraction or an exponent, which Python reads
  as floats, are not part of the model.
\<close>

datatype json =
    JNull
  | JBool bool
  | JInt int
  | JStr string
  | JArr "json list"
  | JObj "(string \<times> json) list"

text \<open>Every exception the polling code can meet; all of them derive from \<^verbatim>\<open>Exception\<close>.\<close>

datatype py_error = URLError | JSONDecodeError | KeyError | TypeError | AttributeError

text \<open>\<^verbatim>\<open>v[k]\<close> for a string key: only a dict can be subscripted by a string.\<close>

fun py_getitem :: "json \<Rightarrow> string \<Rightarrow> py_error + json" where
  "py_getitem (JObj kvs) k = (case map_of kvs k of None \<Rightarrow> Inl KeyError | Some v \<Rightarrow> Inr v)"
| "py_getitem _ k = Inl TypeError"

text \<open>\<^verbatim>\<open>v.get(k, d)\<close>: only a dict has the method.\<close>

fun py_get :: "json \<Rightarrow> string \<Rightarrow> json \<Rightarrow> py_error + json" where
  "py_get (JObj kvs) k d = (case map_of kvs k of None \<Rightarrow> Inr d | Some v \<Rightarrow> Inr v)"
| "py_get _ k d = Inl AttributeError"

text \<open>\<^verbatim>\<open>k in v\<close> for a string \<open>k\<close>: key membership in a dict, element membership in a
  list, substring test on a string, \<^verbatim>\<open>TypeError\<close> on the values that are not containers.\<close>

fun py_in :: "string \<Rightarrow> json \<Rightarrow> py_error + bool" where
  "py_in k (JObj kvs) = Inr (map_of kvs k \<noteq> None)"
| "py_in k (JArr xs) = Inr (JStr k \<in> set xs)"
| "py_in k (JStr s) = Inr (sublist k s)"
| "py_in k _ = Inl TypeError"

text \<open>Truth value of a parsed JSON value, as \<^verbatim>\<open>if v:\<close> tests it.\<close>

fun py_truthy :: "json \<Rightarrow> bool" where
  "py_truthy JNull = False"
| "py_truthy (JBool b) = b"
| "py_truthy (JInt n) = (n \<noteq> 0)"
| "py_truthy (JStr s) = (s \<noteq> [])"
| "py_truthy (JArr xs) = (xs \<noteq> [])"
| "py_truthy (JObj kvs) = (kvs \<noteq> [])"

text \<open>\<^verbatim>\<open>v + 1\<close>: integers add, booleans count as 0 and 1, everything else raises.\<close>

fun py_add_one :: "json \<Rightarrow> py_error + int" where
  "py_add_one (JInt n) = Inr (n + 1)"
| "py_add_one (JBool b) = Inr ((if b then 1 else 0) + 1)"
| "py_add_one _ = Inl TypeError"

text \<open>The integer a parsed value is in arithmetic: an integer itself, a boolean 0 or 1.\<close>

fun py_int :: "json \<Rightarrow> int option" where
  "py_int (JInt n) = Some n"
| "py_int (JBool b) = Some (if b then 1 else 0)"
| "py_int _ = None"

text \<open>\<^verbatim>\<open>for update in v\<close>: a list yields its elements, a string its characters, a dict
  its keys; the other values are not iterable.\<close>

fun py_iter :: "json \<Rightarrow> py_error + json list" where
  "py_iter (JArr xs) = Inr xs"
| "py_iter (JStr s) = Inr (map (\<lambda>c. JStr [c]) s)"
| "py_iter (JObj kvs) = Inr (map JStr (remdups (map fst kvs)))"
| "py_iter _ = Inl TypeError"

text \<open>\<^verbatim>\<open>str.strip()\<close> removes the characters for which \<^verbatim>\<open>str.isspace\<close> holds from both
  ends; below code point 256 these are the twelve listed here.\<close>

definition py_whitespace :: "char list" where
  "py_whitespace =
    [CHR 0x09, CHR 0x0A, CHR 0x0B, CHR 0x0C, CHR 0x0D, CHR 0x1C, CHR 0x1D, CHR 0x1E,
     CHR 0x1F, CHR 0x20, CHR 0x85, CHR 0xA0]"

definition is_space :: "char \<Rightarrow> bool" where
  "is_space c = (c \<in> set py_whitespace)"

definition strip :: "string \<Rightarrow> string" where
  "strip s = rev (dropWhile is_space (rev (dropWhile is_space s)))"

text \<open>\<^verbatim>\<open>v.strip()\<close> on a parsed value: only strings have the method.\<close>

fun py_strip :: "json \<Rightarrow> py_error + string" where
  "py_strip (JStr s) = Inr (strip s)"
| "py_strip _ = Inl AttributeError"

text \<open>
  \<^verbatim>\<open>str(v)\<close> is taken as a parameter \<open>str_of\<close> of the functions that call it: every
  theorem below holds for any rendering. \<open>py_str\<close> is Python's rendering on the values
  where it is modelled (null, booleans, integers, strings) and is used for the concrete
  runs; lists and dicts, whose \<^verbatim>\<open>repr\<close> is not modelled, are rendered as the empty
  string and never occur as conversation ids in those runs.
\<close>

fun dec_nat :: "nat \<Rightarrow> string" where
  "dec_nat n = (if n < 10 then [''0123456789'' ! n]
                else dec_nat (n div 10) @ [''0123456789'' ! (n mod 10)])"

fun py_str :: "json \<Rightarrow> string" where
  "py_str JNull = ''None''"
| "py_str (JBool b) = (if b then ''True'' else ''False'')"
| "py_str (JInt n) = (if n < 0 then CHR ''-'' # dec_nat (nat (- n)) else dec_nat (nat n))"
| "py_str (JStr s) = s"
| "py_str _ = []"

section \<open>The pairing code\<close>

text \<open>
  \<^verbatim>\<open>generate_pairing_code\<close>: \<^verbatim>\<open>''.join(random.choices(string.digits, k=6))\<close>. The
  random source is the function \<open>rnd\<close>, giving the index drawn at each of the six draws;
  \<^verbatim>\<open>random.choices\<close> draws an index below the length of the population, which the model
  keeps by reducing the draw modulo 10.
\<close>

definition string_digits :: string where
  "string_digits = ''0123456789''"

definition generate_pairing_code :: "(nat \<Rightarrow> nat) \<Rightarrow> string" where
  "generate_pairing_code rnd = map (\<lambda>k. string_digits ! (rnd k mod 10)) [0..<6]"

section \<open>Polling\<close>

text \<open>
  The two polling loops keep a local \<open>offset\<close>. The state below holds it together with a
  log of the effects of the loop: the \<^verbatim>\<open>getUpdates\<close> requests issued (the token and the
  \<^verbatim>\<open>offset\<close> query parameter, \<open>None\<close> when the URL carries none) and the update ids read,
  that is the values of \<^verbatim>\<open>update['update_id']\<close> of the updates for which
  \<^verbatim>\<open>offset = update['update_id'] + 1\<close> was executed, each in the order of occurrence.
\<close>

type_synonym request = "string \<times> int option"

record poll_state =
  offset :: int
  requests :: "request list"
  seen :: "int list"

definition initial_state :: poll_state where
  "initial_state = \<lparr>offset = 0, requests = [], seen = []\<rparr>"

text \<open>What one pass of the loop body does next: go on, return a value, or raise.\<close>

datatype 'a step = Continue | Return 'a | Raise py_error

text \<open>
  The environment of one phase: the reading of \<^verbatim>\<open>time.time()\<close> taken for
  \<open>start_time\<close>, and for every pass of the \<^verbatim>\<open>while\<close> loop the clock reading of the loop
  test together with the answer of the remote service to the request of that pass
  (\<open>Inl\<close> when \<^verbatim>\<open>urlopen\<close> or \<^verbatim>\<open>json.loads\<close> raises, \<open>Inr\<close> the parsed body otherwise).
  \<^verbatim>\<open>time.sleep(2)\<close> between two passes only lets the clock advance, which the next
  reading shows. A run on a finite list of passes that neither returns nor reaches the
  deadline is still looping: its result is \<open>None\<close>.
\<close>

type_synonym round = "real \<times> (request \<Rightarrow> py_error + json)"

text \<open>The updates the \<^verbatim>\<open>for\<close> loop iterates: none unless \<^verbatim>\<open>result.get('ok')\<close> is true.\<close>

definition ok_updates :: "json \<Rightarrow> py_error + json list" where
  "ok_updates result =
    (case py_get result ''ok'' JNull of
       Inl e \<Rightarrow> Inl e
     | Inr ok \<Rightarrow>
         if py_truthy ok then
           (case py_get result ''result'' (JArr []) of
              Inl e \<Rightarrow> Inl e
            | Inr updates \<Rightarrow> py_iter updates)
         else Inr [])"

definition delivered :: "py_error + json \<Rightarrow> py_error + json list" where
  "delivered response = (case response of Inl e \<Rightarrow> Inl e | Inr result \<Rightarrow> ok_updates result)"

text \<open>
  \<^verbatim>\<open>offset = update['update_id'] + 1\<close>, the first statement of both loop bodies. The log
  \<open>seen\<close> takes the id as it stands in the update, not the offset computed from it.
\<close>

definition advance :: "poll_state \<Rightarrow> json \<Rightarrow> py_error + poll_state" where
  "advance st update =
    (case py_getitem update ''update_id'' of
       Inl e \<Rightarrow> Inl e
     | Inr v \<Rightarrow>
        (case py_add_one v of
           Inl e \<Rightarrow> Inl e
         | Inr off \<Rightarrow>
            Inr (st\<lparr>offset := off,
                    seen := seen st @ (case py_int v of None \<Rightarrow> [] | Some i \<Rightarrow> [i])\<rparr>)))"

subsection \<open>\<^verbatim>\<open>wait_for_start_command\<close>\<close>

text \<open>The rest of the loop body, from \<^verbatim>\<open>if 'message' in update:\<close> on.\<close>

definition start_message :: "(json \<Rightarrow> string) \<Rightarrow> json \<Rightarrow> string step" where
  "start_message str_of update =
    (case py_in ''message'' update of
       Inl e \<Rightarrow> Raise e
     | Inr False \<Rightarrow> Continue
     | Inr True \<Rightarrow>
    (case py_getitem update ''message'' of
       Inl e \<Rightarrow> Raise e
     | Inr msg \<Rightarrow>
    (case py_getitem msg ''chat'' of
       Inl e \<Rightarrow> Raise e
     | Inr chat \<Rightarrow>
    (case py_get msg ''text'' (JStr []) of
       Inl e \<Rightarrow> Raise e
     | Inr t \<Rightarrow>
    (case py_strip t of
       Inl e \<Rightarrow> Raise e
     | Inr text \<Rightarrow>
        if text = ''/start'' then
          (case py_getitem chat ''id'' of
             Inl e \<Rightarrow> Raise e
           | Inr cid \<Rightarrow>
          (case py_get msg ''from'' (JObj []) of
             Inl e \<Rightarrow> Raise e
           | Inr sender \<Rightarrow>
          (case py_get sender ''first_name'' (JStr ''User'') of
             Inl e \<Rightarrow> Raise e
           | Inr user_name \<Rightarrow> Return (str_of cid))))
        else Continue)))))"

definition start_update :: "(json \<Rightarrow> string) \<Rightarrow> poll_state \<Rightarrow> json \<Rightarrow> poll_state \<times> string step" where
  "start_update str_of st update =
    (case advance st update of
       Inl e \<Rightarrow> (st, Raise e)
     | Inr st' \<Rightarrow> (st', start_message str_of update))"

fun start_batch :: "(json \<Rightarrow> string) \<Rightarrow> poll_state \<Rightarrow> json list \<Rightarrow> poll_state \<times> string step" where
  "start_batch str_of st [] = (st, Continue)"
| "start_batch str_of st (update # updates) =
    (case start_update str_of st update of
       (st', Continue) \<Rightarrow> start_batch str_of st' updates
     | (st', Return chat_id) \<Rightarrow> (st', Return chat_id)
     | (st', Raise e) \<Rightarrow> (st', Raise e))"

text \<open>The URL carries \<^verbatim>\<open>?offset=\<close> only when \<^verbatim>\<open>offset\<close> is true, that is not 0.\<close>

definition start_request :: "string \<Rightarrow> int \<Rightarrow> request" where
  "start_request token off = (token, if off \<noteq> 0 then Some off else None)"

definition start_round :: "(json \<Rightarrow> string) \<Rightarrow> poll_state \<Rightarrow> py_error + json \<Rightarrow> poll_state \<times> string step" where
  "start_round str_of st response =
    (case delivered response of
       Inl e \<Rightarrow> (st, Raise e)
     | Inr updates \<Rightarrow> start_batch str_of st updates)"

text \<open>The \<^verbatim>\<open>while\<close> loop; \<^verbatim>\<open>except Exception: pass\<close> turns a raise into the next pass.\<close>

fun start_loop ::
  "(json \<Rightarrow> string) \<Rightarrow> string \<Rightarrow> real \<Rightarrow> int \<Rightarrow> poll_state \<Rightarrow> round list
    \<Rightarrow> string option option \<times> poll_state" where
  "start_loop str_of token start_time timeout st [] = (None, st)"
| "start_loop str_of token start_time timeout st ((now, respond) # rounds) =
    (if now - start_time < real_of_int timeout then
       (let req = start_request token (offset st) in
        case start_round str_of (st\<lparr>requests := requests st @ [req]\<rparr>) (respond req) of
          (st', Return chat_id) \<Rightarrow> (Some (Some chat_id), st')
        | (st', Continue) \<Rightarrow> start_loop str_of token start_time timeout st' rounds
        | (st', Raise e) \<Rightarrow> start_loop str_of token start_time timeout st' rounds)
     else (Some None, st))"

definition wait_for_start_command ::
  "(json \<Rightarrow> string) \<Rightarrow> string \<Rightarrow> int \<Rightarrow> real \<times> round list \<Rightarrow> string option option \<times> poll_state" where
  "wait_for_start_command str_of token timeout world =
    start_loop str_of token (fst world) timeout initial_state (snd world)"

subsection \<open>\<^verbatim>\<open>wait_for_pairing_code\<close>\<close>

definition pairing_message :: "(json \<Rightarrow> string) \<Rightarrow> string \<Rightarrow> string \<Rightarrow> json \<Rightarrow> bool step" where
  "pairing_message str_of chat_id pairing_code update =
    (case py_in ''message'' update of
       Inl e \<Rightarrow> Raise e
     | Inr False \<Rightarrow> Continue
     | Inr True \<Rightarrow>
    (case py_getitem update ''message'' of
       Inl e \<Rightarrow> Raise e
     | Inr msg \<Rightarrow>
    (case py_getitem msg ''chat'' of
       Inl e \<Rightarrow> Raise e
     | Inr chat \<Rightarrow>
    (case py_get msg ''text'' (JStr []) of
       Inl e \<Rightarrow> Raise e
     | Inr t \<Rightarrow>
    (case py_strip t of
       Inl e \<Rightarrow> Raise e
     | Inr text \<Rightarrow>
    (case py_getitem chat ''id'' of
       Inl e \<Rightarrow> Raise e
     | Inr cid \<Rightarrow>
        if str_of cid = chat_id then
          (if text = pairing_code then Return True
           else if prefix ''/'' text then Continue
           else Continue)
        else Continue))))))"

definition pairing_update ::
  "(json \<Rightarrow> string) \<Rightarrow> string \<Rightarrow> string \<Rightarrow> poll_state \<Rightarrow> json \<Rightarrow> poll_state \<times> bool step" where
  "pairing_update str_of chat_id pairing_code st update =
    (case advance st update of
       Inl e \<Rightarrow> (st, Raise e)
     | Inr st' \<Rightarrow> (st', pairing_message str_of chat_id pairing_code update))"

fun pairing_batch ::
  "(json \<Rightarrow> string) \<Rightarrow> string \<Rightarrow> string \<Rightarrow> poll_state \<Rightarrow> json list \<Rightarrow> poll_state \<times> bool step" where
  "pairing_batch str_of chat_id pairing_code st [] = (st, Continue)"
| "pairing_batch str_of chat_id pairing_code st (update # updates) =
    (case pairing_update str_of chat_id pairing_code st update of
       (st', Continue) \<Rightarrow> pairing_batch str_of chat_id pairing_code st' updates
     | (st', Return b) \<Rightarrow> (st', Return b)
     | (st', Raise e) \<Rightarrow> (st', Raise e))"

text \<open>Here the URL always carries \<^verbatim>\<open>?offset=\<close>.\<close>

definition pairing_request :: "string \<Rightarrow> int \<Rightarrow> request" where
  "pairing_request token off = (token, Some off)"

definition pairing_round ::
  "(json \<Rightarrow> string) \<Rightarrow> string \<Rightarrow> string \<Rightarrow> poll_state \<Rightarrow> py_error + json \<Rightarrow> poll_state \<times> bool step" where
  "pairing_round str_of chat_id pairing_code st response =
    (case delivered response of
       Inl e \<Rightarrow> (st, Raise e)
     | Inr updates \<Rightarrow> pairing_batch str_of chat_id pairing_code st updates)"

fun pairing_loop ::
  "(json \<Rightarrow> string) \<Rightarrow> string \<Rightarrow> string \<Rightarrow> string \<Rightarrow> real \<Rightarrow> int \<Rightarrow> poll_state \<Rightarrow> round list
    \<Rightarrow> bool option \<times> poll_state" where
  "pairing_loop str_of token chat_id pairing_code start_time timeout st [] = (None, st)"
| "pairing_loop str_of token chat_id pairing_code start_time timeout st ((now, respond) # rounds) =
    (if now - start_time < real_of_int timeout then
       (let req = pairing_request token (offset st) in
        case pairing_round str_of chat_id pairing_code (st\<lparr>requests := requests st @ [req]\<rparr>)
               (respond req) of
          (st', Return b) \<Rightarrow> (Some b, st')
        | (st', Continue) \<Rightarrow>
            pairing_loop str_of token chat_id pairing_code start_time timeout st' rounds
        | (st', Raise e) \<Rightarrow>
            pairing_loop str_of token chat_id pairing_code start_time timeout st' rounds)
     else (Some False, st))"

definition wait_for_pairing_code ::
  "(json \<Rightarrow> string) \<Rightarrow> string \<Rightarrow> string \<Rightarrow> string \<Rightarrow> int \<Rightarrow> real \<times> round list
    \<Rightarrow> bool option \<times> poll_state" where
  "wait_for_pairing_code str_of token chat_id pairing_code timeout world =
    pairing_loop str_of token chat_id pairing_code (fst world) timeout initial_state (snd world)"


section \<open>Saving the credentials\<close>

text \<open>
  The \<^verbatim>\<open>try\<close> block of \<^verbatim>\<open>setup_telegram\<close> that rewrites the \<^verbatim>\<open>.env\<close> file. The file is
  given by the characters it holds (\<open>None\<close> when it does not exist). \<^verbatim>\<open>open(env_file, 'r')\<close>
  reads it in text mode with universal newlines: a carriage return, alone or followed by
  a line feed, is delivered as one line feed. \<^verbatim>\<open>readlines\<close> cuts the delivered text after
  every line feed and keeps the line feed in the line, and \<^verbatim>\<open>writelines\<close> writes the strings
  one after the other; on writing, a line feed is written as \<^verbatim>\<open>os.linesep\<close>, which is the
  line feed itself on the POSIX systems the program is written for (it reads \<^verbatim>\<open>/dev/tty\<close>).
  A file whose bytes do not decode, or that cannot be opened or written, raises; the
  \<^verbatim>\<open>except\<close> branch then reports the failure and these cases are not part of the model.
\<close>

fun universal_newlines :: "string \<Rightarrow> string" where
  "universal_newlines [] = []"
| "universal_newlines [c] = [if c = CHR 0x0D then CHR 0x0A else c]"
| "universal_newlines (c # d # ds) =
    (if c = CHR 0x0D then
       (if d = CHR 0x0A then CHR 0x0A # universal_newlines ds
        else CHR 0x0A # universal_newlines (d # ds))
     else c # universal_newlines (d # ds))"

fun readlines :: "string \<Rightarrow> string list" where
  "readlines [] = []"
| "readlines (c # cs) =
    (if c = CHR 0x0A then [c] # readlines cs
     else (case readlines cs of [] \<Rightarrow> [[c]] | l # ls \<Rightarrow> (c # l) # ls))"

definition writelines :: "string list \<Rightarrow> string" where
  "writelines ls = concat ls"

record merge_state =
  token_found :: bool
  chat_id_found :: bool
  new_lines :: "string list"

text \<open>The \<^verbatim>\<open>for line in env_lines\<close> loop.\<close>

fun merge_lines :: "string \<Rightarrow> string \<Rightarrow> merge_state \<Rightarrow> string list \<Rightarrow> merge_state" where
  "merge_lines token chat_id m [] = m"
| "merge_lines token chat_id m (line # env_lines) =
    merge_lines token chat_id
      (if prefix ''TELEGRAM_BOT_TOKEN='' line then
         m\<lparr>new_lines := new_lines m @ [''TELEGRAM_BOT_TOKEN='' @ token @ [CHR 0x0A]],
           token_found := True\<rparr>
       else if prefix ''TELEGRAM_CHAT_ID='' line then
         m\<lparr>new_lines := new_lines m @ [''TELEGRAM_CHAT_ID='' @ chat_id @ [CHR 0x0A]],
           chat_id_found := True\<rparr>
       else m\<lparr>new_lines := new_lines m @ [line]\<rparr>)
      env_lines"

definition save_env :: "string \<Rightarrow> string \<Rightarrow> string option \<Rightarrow> string" where
  "save_env token chat_id file =
    (let env_lines =
           (case file of None \<Rightarrow> [] | Some content \<Rightarrow> readlines (universal_newlines content));
         m = merge_lines token chat_id
               \<lparr>token_found = False, chat_id_found = False, new_lines = []\<rparr> env_lines;
         m = (if \<not> token_found m then
                m\<lparr>new_lines :=
                    new_lines m @ [[CHR 0x0A] @ ''TELEGRAM_BOT_TOKEN='' @ token @ [CHR 0x0A]]\<rparr>
              else m);
         m = (if \<not> chat_id_found m then
                m\<lparr>new_lines := new_lines m @ [''TELEGRAM_CHAT_ID='' @ chat_id @ [CHR 0x0A]]\<rparr>
              else m)
     in writelines (new_lines m))"

section \<open>Notions used to state the properties\<close>

text \<open>
  The text and the conversation id of the event an update carries, read the way both
  loops read them: \<^verbatim>\<open>update['message'].get('text', '')\<close> when it is a string, and
  \<^verbatim>\<open>update['message']['chat']['id']\<close>. The text is the one delivered, before
  \<^verbatim>\<open>.strip()\<close>.
\<close>

definition event_text :: "json \<Rightarrow> string option" where
  "event_text update =
    (case py_getitem update ''message'' of
       Inl e \<Rightarrow> None
     | Inr msg \<Rightarrow>
        (case py_get msg ''text'' (JStr []) of
           Inr (JStr t) \<Rightarrow> Some t
         | _ \<Rightarrow> None))"

definition event_chat :: "json \<Rightarrow> json option" where
  "event_chat update =
    (case py_getitem update ''message'' of
       Inl e \<Rightarrow> None
     | Inr msg \<Rightarrow>
        (case py_getitem msg ''chat'' of
           Inl e \<Rightarrow> None
         | Inr chat \<Rightarrow>
            (case py_getitem chat ''id'' of
               Inl e \<Rightarrow> None
             | Inr cid \<Rightarrow> Some cid)))"

text \<open>All updates that the passes of a world can deliver, whatever the request.\<close>

definition deliverable :: "round list \<Rightarrow> json set" where
  "deliverable rounds =
    {u. \<exists>now respond req us. (now, respond) \<in> set rounds \<and>
          delivered (respond req) = Inr us \<and> u \<in> set us}"

text \<open>
  The credential store as the specification words it: the value of a line that starts
  with the key is replaced in place, a key that is absent is appended as one new line,
  every other line is kept. Lines carry their newline, as \<open>readlines\<close> gives them.
\<close>

definition spec_store :: "string \<Rightarrow> string \<Rightarrow> string list \<Rightarrow> string list" where
  "spec_store token conversation_id ls =
    map (\<lambda>line.
          if prefix ''TELEGRAM_BOT_TOKEN='' line then ''TELEGRAM_BOT_TOKEN='' @ token @ [CHR 0x0A]
          else if prefix ''TELEGRAM_CHAT_ID='' line then ''TELEGRAM_CHAT_ID='' @ conversation_id @ [CHR 0x0A]
          else line) ls
    @ (if list_ex (prefix ''TELEGRAM_BOT_TOKEN='') ls then []
       else [''TELEGRAM_BOT_TOKEN='' @ token @ [CHR 0x0A]])
    @ (if list_ex (prefix ''TELEGRAM_CHAT_ID='') ls then []
       else [''TELEGRAM_CHAT_ID='' @ conversation_id @ [CHR 0x0A]])"

text \<open>Concrete updates and response bodies for the runs below.\<close>

definition message_update :: "int \<Rightarrow> json \<Rightarrow> string \<Rightarrow> json" where
  "message_update uid cid t =
    JObj [(''update_id'', JInt uid),
          (''message'', JObj [(''chat'', JObj [(''id'', cid)]), (''text'', JStr t)])]"

definition ok_body :: "json list \<Rightarrow> py_error + json" where
  "ok_body updates = Inr (JObj [(''ok'', JBool True), (''result'', JArr updates)])"

text \<open>A remote service that gives the same answer to every request.\<close>

definition answer :: "py_error + json \<Rightarrow> request \<Rightarrow> py_error + json" where
  "answer response req = response"

text \<open>
  An event that the verify phase must not accept: it comes from a conversation other than
  the bound one (or from none), or its text begins with the command marker \<^verbatim>\<open>/\<close>.
\<close>

definition foreign_or_command :: "(json \<Rightarrow> string) \<Rightarrow> string \<Rightarrow> json \<Rightarrow> bool" where
  "foreign_or_command str_of chat_id update =
    (map_option str_of (event_chat update) \<noteq> Some chat_id \<or>
     (case event_text update of None \<Rightarrow> False | Some t \<Rightarrow> prefix ''/'' t))"

text \<open>
  The cursor follows the updates read: \<open>offset\<close> is 0 while no update has been read and
  the id of the last update read plus 1 afterwards.
\<close>

definition cursor_follows_seen :: "poll_state \<Rightarrow> bool" where
  "cursor_follows_seen st = (offset st = (if seen st = [] then 0 else last (seen st) + 1))"

text \<open>
  How the state after part of a run relates to the state before it: processing updates
  issues no request, only adds to the ids read, and keeps the cursor behind them.
\<close>

definition step_ok :: "poll_state \<Rightarrow> poll_state \<Rightarrow> bool" where
  "step_ok st st' = (requests st' = requests st \<and> prefix (seen st) (seen st') \<and>
     (cursor_follows_seen st \<longrightarrow> cursor_follows_seen st'))"





text \<open>
  What the merge loop writes for one line; and a line as \<open>readlines\<close> gives it when the
  text goes on after it: it ends with its only newline.
\<close>

definition rewrite_line :: "string \<Rightarrow> string \<Rightarrow> string \<Rightarrow> string" where
  "rewrite_line token chat_id line =
    (if prefix ''TELEGRAM_BOT_TOKEN='' line then ''TELEGRAM_BOT_TOKEN='' @ token @ [CHR 0x0A]
     else if prefix ''TELEGRAM_CHAT_ID='' line then ''TELEGRAM_CHAT_ID='' @ chat_id @ [CHR 0x0A]
     else line)"

definition terminated :: "string \<Rightarrow> bool" where
  "terminated l = (l \<noteq> [] \<and> last l = CHR 0x0A \<and> CHR 0x0A \<notin> set (butlast l))"

section \<open>Which events end a phase\<close>

text \<open>A pass returns only from an update whose message passes the tests of the loop body.\<close>

lemma pairing_message_Return:
  "pairing_message str_of chat_id code u = Return b \<Longrightarrow>
     b \<and> map_option str_of (event_chat u) = Some chat_id \<and> map_option strip (event_text u) = Some code"
  by (auto simp: pairing_message_def event_chat_def event_text_def split: sum.splits bool.splits if_splits json.splits)

lemma start_message_Return:
  "start_message str_of u = Return c \<Longrightarrow>
     map_option str_of (event_chat u) = Some c \<and> map_option strip (event_text u) = Some ''/start''"
  by (auto simp: start_message_def event_chat_def event_text_def split: sum.splits bool.splits if_splits json.splits)

lemma pairing_update_Return:
  "pairing_update str_of chat_id code st u = (st', Return b) \<Longrightarrow>
     pairing_message str_of chat_id code u = Return b"
  by (auto simp: pairing_update_def split: sum.splits)

lemma start_update_Return:
  "start_update str_of st u = (st', Return c) \<Longrightarrow> start_message str_of u = Return c"
  by (auto simp: start_update_def split: sum.splits)

lemma pairing_batch_Return:
  "pairing_batch str_of chat_id code st us = (st', Return b) \<Longrightarrow>
     \<exists>u \<in> set us. pairing_message str_of chat_id code u = Return b"
proof (induction us arbitrary: st)
  case Nil
  then show ?case by simp
next
  case (Cons u us)
  obtain st1 r where r: "pairing_update str_of chat_id code st u = (st1, r)"
    by (cases "pairing_update str_of chat_id code st u")
  show ?case
  proof (cases r)
    case Continue
    with Cons r show ?thesis by auto
  next
    case (Return x)
    with Cons.prems r have "x = b" by simp
    with Return r pairing_update_Return show ?thesis by auto
  next
    case (Raise e)
    with Cons.prems r show ?thesis by simp
  qed
qed

lemma start_batch_Return:
  "start_batch str_of st us = (st', Return c) \<Longrightarrow>
     \<exists>u \<in> set us. start_message str_of u = Return c"
proof (induction us arbitrary: st)
  case Nil
  then show ?case by simp
next
  case (Cons u us)
  obtain st1 r where r: "start_update str_of st u = (st1, r)"
    by (cases "start_update str_of st u")
  show ?case
  proof (cases r)
    case Continue
    with Cons r show ?thesis by auto
  next
    case (Return x)
    with Cons.prems r have "x = c" by simp
    with Return r start_update_Return show ?thesis by auto
  next
    case (Raise e)
    with Cons.prems r show ?thesis by simp
  qed
qed

lemma deliverable_Cons:
  "deliverable (r # rounds) = deliverable [r] \<union> deliverable rounds"
  unfolding deliverable_def by (rule set_eqI) (simp, blast)

lemma deliverable_append:
  "deliverable (xs @ ys) = deliverable xs \<union> deliverable ys"
  unfolding deliverable_def by (rule set_eqI) (simp, blast)

lemma deliverable_single:
  "delivered (respond req) = Inr us \<Longrightarrow> u \<in> set us \<Longrightarrow> u \<in> deliverable [(now, respond)]"
  by (cases req) (auto simp: deliverable_def)

lemma pairing_round_Return:
  "pairing_round str_of chat_id code st (respond req) = (st', Return b) \<Longrightarrow>
    \<exists>u \<in> deliverable [(now, respond)]. pairing_message str_of chat_id code u = Return b"
  unfolding pairing_round_def
  by (auto split: sum.splits dest!: pairing_batch_Return intro: deliverable_single)

lemma start_round_Return:
  "start_round str_of st (respond req) = (st', Return c) \<Longrightarrow>
    \<exists>u \<in> deliverable [(now, respond)]. start_message str_of u = Return c"
  unfolding start_round_def
  by (auto split: sum.splits dest!: start_batch_Return intro: deliverable_single)

lemma pairing_loop_True:
  "pairing_loop str_of token chat_id code t0 timeout st rounds = (Some True, st') \<Longrightarrow>
    \<exists>u \<in> deliverable rounds. pairing_message str_of chat_id code u = Return True"
proof (induction rounds arbitrary: st)
  case Nil
  then show ?case by simp
next
  case (Cons r rounds)
  obtain now respond where r: "r = (now, respond)" by (cases r)
  let ?req = "pairing_request token (offset st)"
  obtain st1 s where s: "pairing_round str_of chat_id code (st\<lparr>requests := requests st @ [?req]\<rparr>) (respond ?req) = (st1, s)"
    by (cases "pairing_round str_of chat_id code (st\<lparr>requests := requests st @ [?req]\<rparr>) (respond ?req)")
  show ?case
  proof (cases "now - t0 < real_of_int timeout")
    case False
    with Cons.prems r show ?thesis by simp
  next
    case True
    show ?thesis
    proof (cases s)
      case Continue
      with Cons.prems r s True
      have "pairing_loop str_of token chat_id code t0 timeout st1 rounds = (Some True, st')"
        by simp
      from Cons.IH[OF this] show ?thesis
        by (subst deliverable_Cons) blast
    next
      case (Return b)
      with Cons.prems r s True have "b = True" by simp
      with Return s pairing_round_Return[of str_of chat_id code _ respond ?req st1 True now]
      show ?thesis unfolding r
        by (subst deliverable_Cons) blast
    next
      case (Raise e)
      with Cons.prems r s True
      have "pairing_loop str_of token chat_id code t0 timeout st1 rounds = (Some True, st')"
        by simp
      from Cons.IH[OF this] show ?thesis
        by (subst deliverable_Cons) blast
    qed
  qed
qed

lemma start_loop_Some:
  "start_loop str_of token t0 timeout st rounds = (Some (Some c), st') \<Longrightarrow>
    \<exists>u \<in> deliverable rounds. start_message str_of u = Return c"
proof (induction rounds arbitrary: st)
  case Nil
  then show ?case by simp
next
  case (Cons r rounds)
  obtain now respond where r: "r = (now, respond)" by (cases r)
  let ?req = "start_request token (offset st)"
  obtain st1 s where s: "start_round str_of (st\<lparr>requests := requests st @ [?req]\<rparr>) (respond ?req) = (st1, s)"
    by (cases "start_round str_of (st\<lparr>requests := requests st @ [?req]\<rparr>) (respond ?req)")
  show ?case
  proof (cases "now - t0 < real_of_int timeout")
    case False
    with Cons.prems r show ?thesis by simp
  next
    case True
    show ?thesis
    proof (cases s)
      case Continue
      with Cons.prems r s True
      have "start_loop str_of token t0 timeout st1 rounds = (Some (Some c), st')"
        by simp
      from Cons.IH[OF this] show ?thesis
        by (subst deliverable_Cons) blast
    next
      case (Return x)
      with Cons.prems r s True have "x = c" by simp
      with Return s start_round_Return[of str_of _ respond ?req st1 c now]
      show ?thesis unfolding r
        by (subst deliverable_Cons) blast
    next
      case (Raise e)
      with Cons.prems r s True
      have "start_loop str_of token t0 timeout st1 rounds = (Some (Some c), st')"
        by simp
      from Cons.IH[OF this] show ?thesis
        by (subst deliverable_Cons) blast
    qed
  qed
qed

text \<open>The verify phase returns \<^verbatim>\<open>False\<close> only from the loop test.\<close>

lemma pairing_round_Return_True:
  "pairing_round str_of chat_id code st response = (st', Return b) \<Longrightarrow> b"
  unfolding pairing_round_def
  by (auto split: sum.splits dest!: pairing_batch_Return pairing_message_Return)

lemma pairing_loop_False:
  "pairing_loop str_of token chat_id code t0 timeout st rounds = (Some False, st') \<Longrightarrow>
    \<exists>r \<in> set rounds. \<not> fst r - t0 < real_of_int timeout"
proof (induction rounds arbitrary: st)
  case Nil
  then show ?case by simp
next
  case (Cons r rounds)
  obtain now respond where r: "r = (now, respond)" by (cases r)
  let ?req = "pairing_request token (offset st)"
  obtain st1 s where s: "pairing_round str_of chat_id code (st\<lparr>requests := requests st @ [?req]\<rparr>) (respond ?req) = (st1, s)"
    by (cases "pairing_round str_of chat_id code (st\<lparr>requests := requests st @ [?req]\<rparr>) (respond ?req)")
  show ?case
  proof (cases "now - t0 < real_of_int timeout")
    case False
    with r show ?thesis by simp
  next
    case True
    show ?thesis
    proof (cases s)
      case Continue
      with Cons.prems r s True
      have "pairing_loop str_of token chat_id code t0 timeout st1 rounds = (Some False, st')"
        by simp
      from Cons.IH[OF this] show ?thesis by auto
    next
      case (Return b)
      with s pairing_round_Return_True have b by blast
      with Return Cons.prems r s True show ?thesis by simp
    next
      case (Raise e)
      with Cons.prems r s True
      have "pairing_loop str_of token chat_id code t0 timeout st1 rounds = (Some False, st')"
        by simp
      from Cons.IH[OF this] show ?thesis by auto
    qed
  qed
qed

text \<open>Stripping keeps a leading \<^verbatim>\<open>/\<close>, and a generated code is six digits.\<close>

lemma dropWhile_keeps_last:
  "\<not> P c \<Longrightarrow> \<exists>zs. dropWhile P (xs @ [c]) = zs @ [c]"
  by (induction xs) auto

lemma strip_keeps_command_marker:
  assumes "prefix ''/'' t"
  shows "prefix ''/'' (strip t)"
proof -
  from assms obtain t' where t: "t = CHR ''/'' # t'"
    by (auto simp: prefix_def)
  have ns: "\<not> is_space CHR ''/''"
    by (simp add: is_space_def py_whitespace_def)
  then have "dropWhile is_space t = t" by (simp add: t)
  moreover obtain zs where "dropWhile is_space (rev t' @ [CHR ''/'']) = zs @ [CHR ''/'']"
    using dropWhile_keeps_last [of is_space "CHR ''/''" "rev t'"] ns by blast
  ultimately have "strip t = CHR ''/'' # rev zs"
    by (simp add: strip_def t)
  then show ?thesis by simp
qed

lemma generated_code_digits:
  "set (generate_pairing_code rnd) \<subseteq> set string_digits \<and> length (generate_pairing_code rnd) = 6"
proof -
  have "\<And>k. rnd k mod 10 < length string_digits"
    by (simp add: string_digits_def)
  then have "\<And>k. string_digits ! (rnd k mod 10) \<in> set string_digits"
    using nth_mem by blast
  then show ?thesis
    unfolding generate_pairing_code_def by auto
qed

lemma generated_code_no_command_marker:
  "\<not> prefix ''/'' (generate_pairing_code rnd)"
proof
  assume "prefix ''/'' (generate_pairing_code rnd)"
  then have "CHR ''/'' \<in> set (generate_pairing_code rnd)"
    by (auto simp: prefix_def)
  with generated_code_digits [of rnd] have "CHR ''/'' \<in> set string_digits" by blast
  then show False by (simp add: string_digits_def)
qed

text \<open>The definitions a concrete run unfolds.\<close>

lemmas run_defs = wait_for_pairing_code_def wait_for_start_command_def initial_state_def
  pairing_request_def start_request_def pairing_round_def start_round_def delivered_def
  ok_updates_def ok_body_def message_update_def answer_def pairing_update_def start_update_def
  advance_def pairing_message_def start_message_def strip_def is_space_def py_whitespace_def
  event_text_def event_chat_def

section \<open>The comparison against the issued code\<close>

text \<open>
  Claim C1, as the code has it. An update satisfies the challenge only if the text of its
  message, after \<^verbatim>\<open>.strip()\<close> has removed the whitespace at both ends, is equal to the
  issued code character for character. The comparison is on the stripped text, not on
  the text as delivered: \<^verbatim>\<open>"482913a"\<close> does not match the code \<^verbatim>\<open>"482913"\<close>, but
  \<^verbatim>\<open>"482913 "\<close> does.
\<close>

theorem verify_compares_stripped_text:
  "snd (pairing_update str_of chat_id pairing_code st update) = Return b \<Longrightarrow>
     map_option strip (event_text update) = Some pairing_code"
  using pairing_update_Return [of str_of chat_id pairing_code st update _ b]
    pairing_message_Return [of str_of chat_id pairing_code update b]
  by (cases "pairing_update str_of chat_id pairing_code st update") simp

theorem verify_compares_stripped_text_witness:
  "snd (pairing_update py_str ''777'' ''482913'' initial_state
          (message_update 2 (JInt 777) ''482913'')) = Return True \<and>
   map_option strip (event_text (message_update 2 (JInt 777) ''482913'')) = Some ''482913''"
proof -
  have h: "snd (pairing_update py_str ''777'' ''482913'' initial_state
          (message_update 2 (JInt 777) ''482913'')) = Return True"
    by (simp add: run_defs)
  from verify_compares_stripped_text [OF h] h show ?thesis by simp
qed

text \<open>
  The claim as the specification states it fails: the bound conversation sends the code
  followed by a space, and \<^verbatim>\<open>wait_for_pairing_code\<close> returns \<^verbatim>\<open>True\<close>.
\<close>

theorem trailing_space_matches_counterexample:
  "fst (wait_for_pairing_code py_str ''T1'' ''777'' ''482913'' 300
         (0, [(1, answer (ok_body [message_update 2 (JInt 777) ''482913 '']))])) = Some True \<and>
   event_text (message_update 2 (JInt 777) ''482913 '') = Some ''482913 '' \<and>
   ''482913 '' \<noteq> ''482913''"
  by (simp add: run_defs)

section \<open>Foreign conversations and commands\<close>

lemma foreign_or_command_message:
  "foreign_or_command str_of chat_id update \<Longrightarrow>
    pairing_message str_of chat_id (generate_pairing_code rnd) update \<noteq> Return b"
proof
  assume f: "foreign_or_command str_of chat_id update"
  assume "pairing_message str_of chat_id (generate_pairing_code rnd) update = Return b"
  from pairing_message_Return [OF this]
  have c: "map_option str_of (event_chat update) = Some chat_id"
    and t: "map_option strip (event_text update) = Some (generate_pairing_code rnd)" by simp_all
  from t obtain x where x: "event_text update = Some x" "strip x = generate_pairing_code rnd"
    by auto
  with f c have "prefix ''/'' x" by (simp add: foreign_or_command_def)
  then have "prefix ''/'' (strip x)" by (rule strip_keeps_command_marker)
  with x generated_code_no_command_marker show False by simp
qed

text \<open>
  Claim C2. The issued code comes from \<^verbatim>\<open>generate_pairing_code\<close>. Whatever the state of
  the loop, an update whose conversation id, as \<^verbatim>\<open>str()\<close> renders it, differs from the
  bound one never satisfies the challenge, whatever its text, and neither does an update
  from the bound conversation whose text begins with \<^verbatim>\<open>/\<close>; and for every sequence of
  polled events made of such updates only, \<^verbatim>\<open>wait_for_pairing_code\<close> does not return
  \<^verbatim>\<open>True\<close>.
\<close>

theorem foreign_or_command_never_satisfies:
  "(foreign_or_command str_of chat_id update \<longrightarrow>
      snd (pairing_update str_of chat_id (generate_pairing_code rnd) st update) \<noteq> Return b) \<and>
   ((\<forall>u \<in> deliverable (snd world). foreign_or_command str_of chat_id u) \<longrightarrow>
      fst (wait_for_pairing_code str_of token chat_id (generate_pairing_code rnd) timeout world)
        \<noteq> Some True)"
proof (intro conjI impI)
  assume "foreign_or_command str_of chat_id update"
  from foreign_or_command_message [OF this]
  show "snd (pairing_update str_of chat_id (generate_pairing_code rnd) st update) \<noteq> Return b"
    using pairing_update_Return [of str_of chat_id "generate_pairing_code rnd" st update _ b]
    by (cases "pairing_update str_of chat_id (generate_pairing_code rnd) st update") auto
next
  assume all: "\<forall>u \<in> deliverable (snd world). foreign_or_command str_of chat_id u"
  show "fst (wait_for_pairing_code str_of token chat_id (generate_pairing_code rnd) timeout world)
        \<noteq> Some True"
  proof
    assume "fst (wait_for_pairing_code str_of token chat_id (generate_pairing_code rnd) timeout world)
        = Some True"
    then obtain st' where "pairing_loop str_of token chat_id (generate_pairing_code rnd) (fst world)
        timeout initial_state (snd world) = (Some True, st')"
      unfolding wait_for_pairing_code_def
      by (cases "pairing_loop str_of token chat_id (generate_pairing_code rnd) (fst world)
        timeout initial_state (snd world)") auto
    from pairing_loop_True [OF this] all foreign_or_command_message
    show False by blast
  qed
qed



lemma deliverable_Nil: "deliverable [] = {}"
  by (simp add: deliverable_def)

lemma deliverable_answer:
  "deliverable ((now, answer response) # rounds) =
    (case delivered response of Inl e \<Rightarrow> {} | Inr us \<Rightarrow> set us) \<union> deliverable rounds"
proof -
  have "deliverable [(now, answer response)] =
      (case delivered response of Inl e \<Rightarrow> {} | Inr us \<Rightarrow> set us)"
    by (auto simp: deliverable_def answer_def split: sum.splits)
  then show ?thesis by (subst deliverable_Cons) simp
qed

text \<open>
  A run of C2: the conversation 999 sends the right code and the bound conversation 777
  sends it behind a \<^verbatim>\<open>/\<close>; the phase does not return \<^verbatim>\<open>True\<close>.
\<close>

theorem foreign_or_command_never_satisfies_witness:
  "foreign_or_command py_str ''777'' (message_update 2 (JInt 999) ''123456'') \<and>
   foreign_or_command py_str ''777'' (message_update 3 (JInt 777) ''/123456'') \<and>
   snd (pairing_update py_str ''777'' (generate_pairing_code Suc) initial_state
         (message_update 2 (JInt 999) ''123456'')) \<noteq> Return True \<and>
   fst (wait_for_pairing_code py_str ''T1'' ''777'' (generate_pairing_code Suc) 300
         (0, [(1, answer (ok_body [message_update 2 (JInt 999) ''123456'',
                                   message_update 3 (JInt 777) ''/123456'']))])) \<noteq> Some True"
proof -
  let ?a = "message_update 2 (JInt 999) ''123456''"
  let ?b = "message_update 3 (JInt 777) ''/123456''"
  let ?w = "(0::real, [(1::real, answer (ok_body [?a, ?b]))])"
  have a: "foreign_or_command py_str ''777'' ?a"
    by (simp add: foreign_or_command_def run_defs)
  have b: "foreign_or_command py_str ''777'' ?b"
    by (simp add: foreign_or_command_def run_defs)
  have "deliverable (snd ?w) = {?a, ?b}"
    by (simp add: deliverable_answer deliverable_Nil delivered_def ok_updates_def ok_body_def)
  with a b have all: "\<forall>u \<in> deliverable (snd ?w). foreign_or_command py_str ''777'' u"
    by simp
  from foreign_or_command_never_satisfies
    [of py_str "''777''" ?a Suc initial_state True ?w "''T1''" 300]
    a b all
  show ?thesis by blast
qed

section \<open>The handshake listener\<close>

text \<open>
  Claim C3, as the code has it. \<^verbatim>\<open>wait_for_start_command\<close> returns a conversation id
  only from a polled update whose text, after \<^verbatim>\<open>.strip()\<close>, is exactly \<^verbatim>\<open>/start\<close>, and
  the id returned is the one of that update; an update whose stripped text is anything
  else never makes the loop return, whatever the state.
\<close>

theorem handshake_matches_stripped_start:
  "(fst (wait_for_start_command str_of token timeout world) = Some (Some chat_id) \<longrightarrow>
      (\<exists>u \<in> deliverable (snd world).
          map_option strip (event_text u) = Some ''/start'' \<and>
          map_option str_of (event_chat u) = Some chat_id)) \<and>
   (map_option strip (event_text update) \<noteq> Some ''/start'' \<longrightarrow>
      snd (start_update str_of st update) \<noteq> Return chat_id)"
proof (intro conjI impI)
  assume "fst (wait_for_start_command str_of token timeout world) = Some (Some chat_id)"
  then obtain st' where "start_loop str_of token (fst world) timeout initial_state (snd world)
      = (Some (Some chat_id), st')"
    unfolding wait_for_start_command_def
    by (cases "start_loop str_of token (fst world) timeout initial_state (snd world)") auto
  from start_loop_Some [OF this] start_message_Return
  show "\<exists>u \<in> deliverable (snd world).
          map_option strip (event_text u) = Some ''/start'' \<and>
          map_option str_of (event_chat u) = Some chat_id"
    by blast
next
  assume n: "map_option strip (event_text update) \<noteq> Some ''/start''"
  show "snd (start_update str_of st update) \<noteq> Return chat_id"
  proof
    assume "snd (start_update str_of st update) = Return chat_id"
    then have "start_message str_of update = Return chat_id"
      using start_update_Return [of str_of st update _ chat_id]
      by (cases "start_update str_of st update") auto
    from start_message_Return [OF this] n show False by simp
  qed
qed

text \<open>A run of C3: \<^verbatim>\<open>/start\<close> from conversation 777 is returned, \<^verbatim>\<open>hello\<close> is not.\<close>

theorem handshake_matches_stripped_start_witness:
  "fst (wait_for_start_command py_str ''T1'' 300
         (0, [(1, answer (ok_body [message_update 1 (JInt 777) ''/start'']))]))
     = Some (Some ''777'') \<and>
   (\<exists>u \<in> deliverable [(1, answer (ok_body [message_update 1 (JInt 777) ''/start'']))].
      map_option strip (event_text u) = Some ''/start'' \<and>
      map_option py_str (event_chat u) = Some ''777'') \<and>
   map_option strip (event_text (message_update 2 (JInt 777) ''hello'')) \<noteq> Some ''/start'' \<and>
   snd (start_update py_str initial_state (message_update 2 (JInt 777) ''hello''))
     \<noteq> Return ''777''"
proof -
  let ?w = "(0::real, [(1::real, answer (ok_body [message_update 1 (JInt 777) ''/start'']))])"
  have r: "fst (wait_for_start_command py_str ''T1'' 300 ?w) = Some (Some ''777'')"
    by (simp add: run_defs)
  have n: "map_option strip (event_text (message_update 2 (JInt 777) ''hello'')) \<noteq> Some ''/start''"
    by (simp add: run_defs)
  from handshake_matches_stripped_start
    [of py_str "''T1''" 300 ?w "''777''" "message_update 2 (JInt 777) ''hello''" initial_state]
    r n
  show ?thesis by simp
qed

text \<open>
  The claim as the specification states it fails: the text \<^verbatim>\<open>" /start "\<close> is not exactly
  the initiation signal, and the listener returns the conversation id from it.
\<close>

theorem padded_start_counterexample:
  "fst (wait_for_start_command py_str ''T1'' 300
         (0, [(1, answer (ok_body [message_update 1 (JInt 777) '' /start '']))]))
     = Some (Some ''777'') \<and>
   event_text (message_update 1 (JInt 777) '' /start '') = Some '' /start '' \<and>
   '' /start '' \<noteq> ''/start''"
  by (simp add: run_defs)

section \<open>The cursor and the log of a run\<close>

lemma py_add_one_int: "py_add_one v = Inr off \<Longrightarrow> py_int v = Some (off - 1)"
  by (cases v) auto

lemma advance_read:
  "advance st u = Inr st' \<Longrightarrow>
    \<exists>v i. py_getitem u ''update_id'' = Inr v \<and> py_int v = Some i \<and>
      st' = st\<lparr>offset := i + 1, seen := seen st @ [i]\<rparr>"
  by (auto simp: advance_def split: sum.splits dest!: py_add_one_int)

lemma advance_state:
  "advance st u = Inr st' \<Longrightarrow>
    requests st' = requests st \<and> (\<exists>i. seen st' = seen st @ [i] \<and> offset st' = i + 1)"
  by (auto dest!: advance_read)

lemma advance_cursor: "advance st u = Inr st' \<Longrightarrow> cursor_follows_seen st'"
  by (auto simp: cursor_follows_seen_def dest: advance_state)

lemma step_ok_refl: "step_ok st st"
  by (simp add: step_ok_def)

lemma step_ok_trans: "step_ok a b \<Longrightarrow> step_ok b c \<Longrightarrow> step_ok a c"
  by (auto simp: step_ok_def)

lemma start_update_state: "start_update str_of st u = (st', r) \<Longrightarrow> step_ok st st'"
  unfolding start_update_def
  by (auto simp: step_ok_def cursor_follows_seen_def split: sum.splits dest!: advance_state)

lemma pairing_update_state:
  "pairing_update str_of chat_id code st u = (st', r) \<Longrightarrow> step_ok st st'"
  unfolding pairing_update_def
  by (auto simp: step_ok_def cursor_follows_seen_def split: sum.splits dest!: advance_state)

lemma start_batch_state: "start_batch str_of st us = (st', r) \<Longrightarrow> step_ok st st'"
proof (induction us arbitrary: st)
  case Nil
  then show ?case by (simp add: step_ok_refl)
next
  case (Cons u us)
  obtain st1 s where s: "start_update str_of st u = (st1, s)"
    by (cases "start_update str_of st u")
  from start_update_state [OF s] have 1: "step_ok st st1" .
  show ?case
  proof (cases s)
    case Continue
    with Cons.prems s have "start_batch str_of st1 us = (st', r)" by simp
    from Cons.IH [OF this] 1 show ?thesis by (rule step_ok_trans [rotated])
  next
    case (Return x)
    with Cons.prems s 1 show ?thesis by simp
  next
    case (Raise e)
    with Cons.prems s 1 show ?thesis by simp
  qed
qed

lemma pairing_batch_state:
  "pairing_batch str_of chat_id code st us = (st', r) \<Longrightarrow> step_ok st st'"
proof (induction us arbitrary: st)
  case Nil
  then show ?case by (simp add: step_ok_refl)
next
  case (Cons u us)
  obtain st1 s where s: "pairing_update str_of chat_id code st u = (st1, s)"
    by (cases "pairing_update str_of chat_id code st u")
  from pairing_update_state [OF s] have 1: "step_ok st st1" .
  show ?case
  proof (cases s)
    case Continue
    with Cons.prems s have "pairing_batch str_of chat_id code st1 us = (st', r)" by simp
    from Cons.IH [OF this] 1 show ?thesis by (rule step_ok_trans [rotated])
  next
    case (Return x)
    with Cons.prems s 1 show ?thesis by simp
  next
    case (Raise e)
    with Cons.prems s 1 show ?thesis by simp
  qed
qed

lemma start_round_state: "start_round str_of st response = (st', r) \<Longrightarrow> step_ok st st'"
  unfolding start_round_def
  by (auto split: sum.splits simp: step_ok_refl dest: start_batch_state)

lemma pairing_round_state:
  "pairing_round str_of chat_id code st response = (st', r) \<Longrightarrow> step_ok st st'"
  unfolding pairing_round_def
  by (auto split: sum.splits simp: step_ok_refl dest: pairing_batch_state)

text \<open>A run on a longer world goes on from where the run on a prefix stands.\<close>

lemma start_loop_append:
  "start_loop str_of token t0 timeout st (xs @ ys) =
    (case start_loop str_of token t0 timeout st xs of
       (None, st') \<Rightarrow> start_loop str_of token t0 timeout st' ys
     | (Some r, st') \<Rightarrow> (Some r, st'))"
proof (induction xs arbitrary: st)
  case Nil
  then show ?case by simp
next
  case (Cons r xs)
  obtain now respond where r: "r = (now, respond)" by (cases r)
  show ?case unfolding r
    by (simp add: Cons.IH Let_def split: prod.splits step.splits)
qed

lemma pairing_loop_append:
  "pairing_loop str_of token chat_id code t0 timeout st (xs @ ys) =
    (case pairing_loop str_of token chat_id code t0 timeout st xs of
       (None, st') \<Rightarrow> pairing_loop str_of token chat_id code t0 timeout st' ys
     | (Some r, st') \<Rightarrow> (Some r, st'))"
proof (induction xs arbitrary: st)
  case Nil
  then show ?case by simp
next
  case (Cons r xs)
  obtain now respond where r: "r = (now, respond)" by (cases r)
  show ?case unfolding r
    by (simp add: Cons.IH Let_def split: prod.splits step.splits)
qed





text \<open>A run that is still looping has polled once per pass, each before the deadline.\<close>

lemma start_loop_None:
  "start_loop str_of token t0 timeout st rounds = (None, st') \<Longrightarrow>
    length (requests st') = length (requests st) + length rounds \<and>
    (\<forall>x \<in> set rounds. fst x - t0 < real_of_int timeout)"
proof (induction rounds arbitrary: st)
  case Nil
  then show ?case by simp
next
  case (Cons x rounds)
  obtain now respond where x: "x = (now, respond)" by (cases x)
  let ?req = "start_request token (offset st)"
  let ?st0 = "st\<lparr>requests := requests st @ [?req]\<rparr>"
  obtain st1 s where s: "start_round str_of ?st0 (respond ?req) = (st1, s)"
    by (cases "start_round str_of ?st0 (respond ?req)")
  from start_round_state [OF s] have 1: "requests st1 = requests st @ [?req]"
    by (simp add: step_ok_def)
  from Cons.prems x have True: "now - t0 < real_of_int timeout"
    by (auto split: if_splits)
  with Cons.prems x s have "start_loop str_of token t0 timeout st1 rounds = (None, st')"
    by (cases s) auto
  from Cons.IH [OF this] 1 True x show ?case by simp
qed

lemma pairing_loop_None:
  "pairing_loop str_of token chat_id code t0 timeout st rounds = (None, st') \<Longrightarrow>
    length (requests st') = length (requests st) + length rounds \<and>
    (\<forall>x \<in> set rounds. fst x - t0 < real_of_int timeout)"
proof (induction rounds arbitrary: st)
  case Nil
  then show ?case by simp
next
  case (Cons x rounds)
  obtain now respond where x: "x = (now, respond)" by (cases x)
  let ?req = "pairing_request token (offset st)"
  let ?st0 = "st\<lparr>requests := requests st @ [?req]\<rparr>"
  obtain st1 s where s: "pairing_round str_of chat_id code ?st0 (respond ?req) = (st1, s)"
    by (cases "pairing_round str_of chat_id code ?st0 (respond ?req)")
  from pairing_round_state [OF s] have 1: "requests st1 = requests st @ [?req]"
    by (simp add: step_ok_def)
  from Cons.prems x have True: "now - t0 < real_of_int timeout"
    by (auto split: if_splits)
  with Cons.prems x s
  have "pairing_loop str_of token chat_id code t0 timeout st1 rounds = (None, st')"
    by (cases s) auto
  from Cons.IH [OF this] 1 True x show ?case by simp
qed

text \<open>Without a qualifying event and before the deadline, a run keeps looping.\<close>

lemma start_loop_waiting:
  assumes "\<forall>x \<in> set rounds. fst x - t0 < real_of_int timeout"
    and "\<forall>u \<in> deliverable rounds. \<forall>c. start_message str_of u \<noteq> Return c"
  shows "fst (start_loop str_of token t0 timeout st rounds) = None"
  using assms
proof (induction rounds arbitrary: st)
  case Nil
  then show ?case by simp
next
  case (Cons x rounds)
  obtain now respond where x: "x = (now, respond)" by (cases x)
  let ?req = "start_request token (offset st)"
  let ?st0 = "st\<lparr>requests := requests st @ [?req]\<rparr>"
  obtain st1 s where s: "start_round str_of ?st0 (respond ?req) = (st1, s)"
    by (cases "start_round str_of ?st0 (respond ?req)")
  from Cons.prems(2) have here: "\<forall>u \<in> deliverable [(now, respond)]. \<forall>c. start_message str_of u \<noteq> Return c"
    and rest: "\<forall>u \<in> deliverable rounds. \<forall>c. start_message str_of u \<noteq> Return c"
    unfolding x by (subst (asm) deliverable_Cons, blast)+
  from here s start_round_Return [of str_of ?st0 respond ?req st1 _ now]
  have "\<And>c. s \<noteq> Return c" by blast
  moreover from Cons.prems(1) x have "now - t0 < real_of_int timeout" by simp
  moreover from Cons.prems(1) rest
  have "fst (start_loop str_of token t0 timeout st1 rounds) = None"
    by (intro Cons.IH) auto
  ultimately show ?case using s x by (cases s) auto
qed

lemma pairing_loop_waiting:
  assumes "\<forall>x \<in> set rounds. fst x - t0 < real_of_int timeout"
    and "\<forall>u \<in> deliverable rounds. \<forall>b. pairing_message str_of chat_id code u \<noteq> Return b"
  shows "fst (pairing_loop str_of token chat_id code t0 timeout st rounds) = None"
  using assms
proof (induction rounds arbitrary: st)
  case Nil
  then show ?case by simp
next
  case (Cons x rounds)
  obtain now respond where x: "x = (now, respond)" by (cases x)
  let ?req = "pairing_request token (offset st)"
  let ?st0 = "st\<lparr>requests := requests st @ [?req]\<rparr>"
  obtain st1 s where s: "pairing_round str_of chat_id code ?st0 (respond ?req) = (st1, s)"
    by (cases "pairing_round str_of chat_id code ?st0 (respond ?req)")
  from Cons.prems(2) have here: "\<forall>u \<in> deliverable [(now, respond)]. \<forall>b. pairing_message str_of chat_id code u \<noteq> Return b"
    and rest: "\<forall>u \<in> deliverable rounds. \<forall>b. pairing_message str_of chat_id code u \<noteq> Return b"
    unfolding x by (subst (asm) deliverable_Cons, blast)+
  from here s pairing_round_Return [of str_of chat_id code ?st0 respond ?req st1 _ now]
  have "\<And>b. s \<noteq> Return b" by blast
  moreover from Cons.prems(1) x have "now - t0 < real_of_int timeout" by simp
  moreover from Cons.prems(1) rest
  have "fst (pairing_loop str_of token chat_id code t0 timeout st1 rounds) = None"
    by (intro Cons.IH) auto
  ultimately show ?case using s x by (cases s) auto
qed















section \<open>Wrong codes\<close>

text \<open>
  Claim C10, as the code has it. An update whose text, after \<^verbatim>\<open>.strip()\<close>, is not the
  issued code never makes the verify phase return; when it is well formed (it has an
  update id, a conversation id and a string as text) it is skipped and the loop goes on.
  \<^verbatim>\<open>wait_for_pairing_code\<close> returns \<^verbatim>\<open>True\<close> only when an update from the bound
  conversation was polled whose stripped text is equal to the code, and returns
  \<^verbatim>\<open>False\<close> only when a reading of the clock has reached the deadline.
\<close>

theorem wrong_code_never_ends_verify:
  "(map_option strip (event_text update) \<noteq> Some pairing_code \<longrightarrow>
      snd (pairing_update str_of chat_id pairing_code st update) \<noteq> Return b) \<and>
   (event_chat update = Some cid \<and> event_text update = Some t \<and> strip t \<noteq> pairing_code \<and>
    advance st update = Inr st' \<longrightarrow>
      pairing_update str_of chat_id pairing_code st update = (st', Continue)) \<and>
   (fst (wait_for_pairing_code str_of token chat_id pairing_code timeout world) = Some True \<longrightarrow>
      (\<exists>u \<in> deliverable (snd world).
          map_option str_of (event_chat u) = Some chat_id \<and>
          map_option strip (event_text u) = Some pairing_code)) \<and>
   (fst (wait_for_pairing_code str_of token chat_id pairing_code timeout world) = Some False \<longrightarrow>
      (\<exists>x \<in> set (snd world). \<not> fst x - fst world < real_of_int timeout))"
proof (intro conjI impI)
  assume n: "map_option strip (event_text update) \<noteq> Some pairing_code"
  show "snd (pairing_update str_of chat_id pairing_code st update) \<noteq> Return b"
  proof
    assume "snd (pairing_update str_of chat_id pairing_code st update) = Return b"
    then have "pairing_message str_of chat_id pairing_code update = Return b"
      using pairing_update_Return [of str_of chat_id pairing_code st update _ b]
      by (cases "pairing_update str_of chat_id pairing_code st update") auto
    from pairing_message_Return [OF this] n show False by simp
  qed
next
  assume "event_chat update = Some cid \<and> event_text update = Some t \<and>
    strip t \<noteq> pairing_code \<and> advance st update = Inr st'"
  then show "pairing_update str_of chat_id pairing_code st update = (st', Continue)"
    by (cases update)
      (auto simp: pairing_update_def pairing_message_def event_chat_def event_text_def
        split: sum.splits option.splits json.splits)
next
  assume "fst (wait_for_pairing_code str_of token chat_id pairing_code timeout world) = Some True"
  then obtain st' where "pairing_loop str_of token chat_id pairing_code (fst world) timeout
      initial_state (snd world) = (Some True, st')"
    unfolding wait_for_pairing_code_def
    by (cases "pairing_loop str_of token chat_id pairing_code (fst world) timeout
      initial_state (snd world)") auto
  from pairing_loop_True [OF this] pairing_message_Return
  show "\<exists>u \<in> deliverable (snd world).
          map_option str_of (event_chat u) = Some chat_id \<and>
          map_option strip (event_text u) = Some pairing_code"
    by blast
next
  assume "fst (wait_for_pairing_code str_of token chat_id pairing_code timeout world) = Some False"
  then obtain st' where "pairing_loop str_of token chat_id pairing_code (fst world) timeout
      initial_state (snd world) = (Some False, st')"
    unfolding wait_for_pairing_code_def
    by (cases "pairing_loop str_of token chat_id pairing_code (fst world) timeout
      initial_state (snd world)") auto
  from pairing_loop_False [OF this]
  show "\<exists>x \<in> set (snd world). \<not> fst x - fst world < real_of_int timeout" .
qed

text \<open>
  Runs of C10: the wrong code \<^verbatim>\<open>000000\<close> is skipped; the right code in the next pass
  gives \<^verbatim>\<open>True\<close>; when the next pass is after the deadline the result is \<^verbatim>\<open>False\<close>.
\<close>

theorem wrong_code_never_ends_verify_witness:
  "map_option strip (event_text (message_update 2 (JInt 777) ''000000'')) \<noteq> Some ''482913'' \<and>
   pairing_update py_str ''777'' ''482913'' initial_state (message_update 2 (JInt 777) ''000000'')
     = (\<lparr>offset = 3, requests = [], seen = [2]\<rparr>, Continue) \<and>
   fst (wait_for_pairing_code py_str ''T1'' ''777'' ''482913'' 300
         (0, [(1, answer (ok_body [message_update 2 (JInt 777) ''000000''])),
              (3, answer (ok_body [message_update 3 (JInt 777) ''482913'']))])) = Some True \<and>
   fst (wait_for_pairing_code py_str ''T1'' ''777'' ''482913'' 300
         (0, [(1, answer (ok_body [message_update 2 (JInt 777) ''000000''])),
              (301, answer (ok_body [message_update 3 (JInt 777) ''482913'']))])) = Some False \<and>
   (\<exists>x \<in> set [(1, answer (ok_body [message_update 2 (JInt 777) ''000000''])),
                 (301, answer (ok_body [message_update 3 (JInt 777) ''482913'']))].
      \<not> fst x - 0 < real_of_int 300)"
proof -
  let ?u = "message_update 2 (JInt 777) ''000000''"
  let ?v = "message_update 3 (JInt 777) ''482913''"
  let ?w1 = "(0::real, [(1::real, answer (ok_body [?u])), (3, answer (ok_body [?v]))])"
  let ?w2 = "(0::real, [(1::real, answer (ok_body [?u])), (301, answer (ok_body [?v]))])"
  have n: "map_option strip (event_text ?u) \<noteq> Some ''482913''"
    by (simp add: run_defs)
  have e: "event_chat ?u = Some (JInt 777) \<and> event_text ?u = Some ''000000'' \<and>
      strip ''000000'' \<noteq> ''482913'' \<and>
      advance initial_state ?u = Inr \<lparr>offset = 3, requests = [], seen = [2]\<rparr>"
    by (simp add: run_defs)
  have t: "fst (wait_for_pairing_code py_str ''T1'' ''777'' ''482913'' 300 ?w1) = Some True"
    by (simp add: run_defs)
  have f: "fst (wait_for_pairing_code py_str ''T1'' ''777'' ''482913'' 300 ?w2) = Some False"
    by (simp add: run_defs)
  from wrong_code_never_ends_verify
    [of ?u "''482913''" py_str "''777''" initial_state True "JInt 777" "''000000''"
      "\<lparr>offset = 3, requests = [], seen = [2]\<rparr>" "''T1''" 300 ?w1]
    wrong_code_never_ends_verify
    [of ?u "''482913''" py_str "''777''" initial_state True "JInt 777" "''000000''"
      "\<lparr>offset = 3, requests = [], seen = [2]\<rparr>" "''T1''" 300 ?w2] n e t f
  show ?thesis by simp
qed

text \<open>
  The claim with the text as delivered fails: \<^verbatim>\<open>" 482913"\<close> from the bound conversation
  is neither the issued code nor begins with \<^verbatim>\<open>/\<close>, and it is not skipped.
\<close>

theorem padded_code_ends_verify_counterexample:
  "event_chat (message_update 2 (JInt 777) '' 482913'') = Some (JInt 777) \<and>
   py_str (JInt 777) = ''777'' \<and>
   event_text (message_update 2 (JInt 777) '' 482913'') = Some '' 482913'' \<and>
   '' 482913'' \<noteq> ''482913'' \<and> \<not> prefix ''/'' '' 482913'' \<and>
   pairing_update py_str ''777'' ''482913'' initial_state (message_update 2 (JInt 777) '' 482913'')
     = (\<lparr>offset = 3, requests = [], seen = [2]\<rparr>, Return True)"
  by (simp add: run_defs)

section \<open>Failures of a poll\<close>

text \<open>
  Claim C8. A pass in which the poll fails (\<^verbatim>\<open>urlopen\<close> raises, \<^verbatim>\<open>json.loads\<close> raises,
  or the parsed body is not a dict with an iterable \<^verbatim>\<open>result\<close>) delivers no update,
  leaves \<open>offset\<close> and the ids read as they were, raises nothing out of the loop, and the
  loop goes on with the next pass; in both loops, from any state.
\<close>

theorem poll_failure_is_swallowed:
  assumes "now - t0 < real_of_int timeout"
  shows "(delivered (respond (start_request token (offset st))) = Inl e \<longrightarrow>
      start_loop str_of token t0 timeout st ((now, respond) # rounds) =
      start_loop str_of token t0 timeout
        (st\<lparr>requests := requests st @ [start_request token (offset st)]\<rparr>) rounds) \<and>
    (delivered (respond (pairing_request token (offset st))) = Inl e \<longrightarrow>
      pairing_loop str_of token chat_id pairing_code t0 timeout st ((now, respond) # rounds) =
      pairing_loop str_of token chat_id pairing_code t0 timeout
        (st\<lparr>requests := requests st @ [pairing_request token (offset st)]\<rparr>) rounds)"
  using assms by (simp add: start_round_def pairing_round_def)

text \<open>
  Runs of C8: a network error, then a body that is not JSON, then the deadline; both
  phases end with their timeout outcome and the offset still 0.
\<close>

theorem poll_failure_is_swallowed_witness:
  "(1::real) - 0 < real_of_int 300 \<and>
   delivered (answer (Inl URLError) (start_request ''T1'' (offset initial_state))) = Inl URLError \<and>
   delivered (answer (Inl URLError) (pairing_request ''T1'' (offset initial_state))) = Inl URLError \<and>
   start_loop py_str ''T1'' 0 300 initial_state
     [(1, answer (Inl URLError)), (3, answer (Inl JSONDecodeError)), (301, answer (ok_body []))]
     = (Some None, \<lparr>offset = 0, requests = [(''T1'', None), (''T1'', None)], seen = []\<rparr>) \<and>
   pairing_loop py_str ''T1'' ''777'' ''482913'' 0 300 initial_state
     [(1, answer (Inl URLError)), (3, answer (Inl JSONDecodeError)), (301, answer (ok_body []))]
     = (Some False, \<lparr>offset = 0, requests = [(''T1'', Some 0), (''T1'', Some 0)], seen = []\<rparr>)"
proof -
  have h: "(1::real) - 0 < real_of_int 300" by simp
  have a: "delivered (answer (Inl URLError) (start_request ''T1'' (offset initial_state))) = Inl URLError"
    and b: "delivered (answer (Inl URLError) (pairing_request ''T1'' (offset initial_state))) = Inl URLError"
    by (simp_all add: delivered_def answer_def)
  from poll_failure_is_swallowed [OF h, of "answer (Inl URLError)" "''T1''" initial_state URLError
      py_str "[(3, answer (Inl JSONDecodeError)), (301, answer (ok_body []))]" "''777''" "''482913''"]
    a b
  have "start_loop py_str ''T1'' 0 300 initial_state
     [(1, answer (Inl URLError)), (3, answer (Inl JSONDecodeError)), (301, answer (ok_body []))]
      = start_loop py_str ''T1'' 0 300
          (initial_state\<lparr>requests := requests initial_state @ [start_request ''T1'' (offset initial_state)]\<rparr>)
          [(3, answer (Inl JSONDecodeError)), (301, answer (ok_body []))]"
    and "pairing_loop py_str ''T1'' ''777'' ''482913'' 0 300 initial_state
     [(1, answer (Inl URLError)), (3, answer (Inl JSONDecodeError)), (301, answer (ok_body []))]
      = pairing_loop py_str ''T1'' ''777'' ''482913'' 0 300
          (initial_state\<lparr>requests := requests initial_state @ [pairing_request ''T1'' (offset initial_state)]\<rparr>)
          [(3, answer (Inl JSONDecodeError)), (301, answer (ok_body []))]"
    by simp_all
  then show ?thesis using h a b by (simp add: run_defs)
qed

text \<open>
  An exception raised later, while the updates of a delivered batch are processed, is
  swallowed in the same way; the offset then stays where the updates read so far put it.
\<close>

lemma malformed_update_keeps_offset_read:
  "start_loop py_str ''T1'' 0 300 initial_state
     [(1, answer (ok_body [JObj [(''update_id'', JInt 7), (''message'', JObj [])]])),
      (301, answer (ok_body []))]
     = (Some None, \<lparr>offset = 8, requests = [(''T1'', None)], seen = [7]\<rparr>)"
  by (simp add: run_defs)

section \<open>The deadline\<close>

text \<open>
  Claim C9. When the passes \<open>xs\<close> before the deadline deliver no qualifying event (none
  with stripped text \<^verbatim>\<open>/start\<close> for the handshake; none from the bound conversation with
  the code as stripped text for the verify phase) and the next reading of the clock has
  reached the deadline, the phase returns its timeout outcome (\<^verbatim>\<open>None\<close>, \<^verbatim>\<open>False\<close>) and
  has polled once per pass of \<open>xs\<close> and not again, whatever the remote service would
  deliver afterwards.
\<close>

theorem deadline_ends_phase:
  assumes "\<forall>x \<in> set xs. fst x - t0 < real_of_int timeout"
    and "\<not> now - t0 < real_of_int timeout"
  shows "((\<forall>u \<in> deliverable xs. map_option strip (event_text u) \<noteq> Some ''/start'') \<longrightarrow>
      fst (wait_for_start_command str_of token timeout (t0, xs @ (now, respond) # ys)) = Some None \<and>
      length (requests (snd (wait_for_start_command str_of token timeout
        (t0, xs @ (now, respond) # ys)))) = length xs) \<and>
    ((\<forall>u \<in> deliverable xs. map_option str_of (event_chat u) \<noteq> Some chat_id \<or>
                               map_option strip (event_text u) \<noteq> Some pairing_code) \<longrightarrow>
      fst (wait_for_pairing_code str_of token chat_id pairing_code timeout
        (t0, xs @ (now, respond) # ys)) = Some False \<and>
      length (requests (snd (wait_for_pairing_code str_of token chat_id pairing_code timeout
        (t0, xs @ (now, respond) # ys)))) = length xs)"
proof (intro conjI impI)
  assume "\<forall>u \<in> deliverable xs. map_option strip (event_text u) \<noteq> Some ''/start''"
  with start_message_Return
  have "\<forall>u \<in> deliverable xs. \<forall>c. start_message str_of u \<noteq> Return c" by fastforce
  from start_loop_waiting [OF assms(1) this]
  obtain st' where w: "start_loop str_of token t0 timeout initial_state xs = (None, st')"
    by (metis prod.collapse)
  from start_loop_None [OF w] have l: "length (requests st') = length xs"
    by (simp add: initial_state_def)
  from w assms(2)
  have r: "wait_for_start_command str_of token timeout (t0, xs @ (now, respond) # ys)
      = (Some None, st')"
    by (simp add: wait_for_start_command_def start_loop_append)
  from r show "fst (wait_for_start_command str_of token timeout (t0, xs @ (now, respond) # ys))
      = Some None" by simp
  from r l show "length (requests (snd (wait_for_start_command str_of token timeout
        (t0, xs @ (now, respond) # ys)))) = length xs" by simp
next
  assume "\<forall>u \<in> deliverable xs. map_option str_of (event_chat u) \<noteq> Some chat_id \<or>
                               map_option strip (event_text u) \<noteq> Some pairing_code"
  with pairing_message_Return
  have "\<forall>u \<in> deliverable xs. \<forall>b. pairing_message str_of chat_id pairing_code u \<noteq> Return b"
    by fastforce
  from pairing_loop_waiting [OF assms(1) this]
  obtain st' where w: "pairing_loop str_of token chat_id pairing_code t0 timeout initial_state xs
      = (None, st')"
    by (metis prod.collapse)
  from pairing_loop_None [OF w] have l: "length (requests st') = length xs"
    by (simp add: initial_state_def)
  from w assms(2)
  have r: "wait_for_pairing_code str_of token chat_id pairing_code timeout
      (t0, xs @ (now, respond) # ys) = (Some False, st')"
    by (simp add: wait_for_pairing_code_def pairing_loop_append)
  from r show "fst (wait_for_pairing_code str_of token chat_id pairing_code timeout
        (t0, xs @ (now, respond) # ys)) = Some False" by simp
  from r l show "length (requests (snd (wait_for_pairing_code str_of token chat_id pairing_code
        timeout (t0, xs @ (now, respond) # ys)))) = length xs" by simp
qed

text \<open>
  A run of C9: one pass with \<^verbatim>\<open>hello\<close>, the deadline at 300 seconds, and a \<^verbatim>\<open>/start\<close>
  that would come later and is never polled.
\<close>

theorem deadline_ends_phase_witness:
  "fst (wait_for_start_command py_str ''T1'' 300
      (0, [(1, answer (ok_body [message_update 1 (JInt 777) ''hello''])),
           (300, answer (ok_body [])),
           (302, answer (ok_body [message_update 2 (JInt 777) ''/start'']))])) = Some None \<and>
   length (requests (snd (wait_for_start_command py_str ''T1'' 300
      (0, [(1, answer (ok_body [message_update 1 (JInt 777) ''hello''])),
           (300, answer (ok_body [])),
           (302, answer (ok_body [message_update 2 (JInt 777) ''/start'']))])))) = 1 \<and>
   fst (wait_for_pairing_code py_str ''T1'' ''777'' ''482913'' 300
      (0, [(1, answer (ok_body [message_update 1 (JInt 777) ''hello''])),
           (300, answer (ok_body [])),
           (302, answer (ok_body [message_update 2 (JInt 777) ''/start'']))])) = Some False \<and>
   length (requests (snd (wait_for_pairing_code py_str ''T1'' ''777'' ''482913'' 300
      (0, [(1, answer (ok_body [message_update 1 (JInt 777) ''hello''])),
           (300, answer (ok_body [])),
           (302, answer (ok_body [message_update 2 (JInt 777) ''/start'']))])))) = 1"
proof -
  let ?u = "message_update 1 (JInt 777) ''hello''"
  let ?xs = "[(1::real, answer (ok_body [?u]))]"
  let ?ys = "[(302::real, answer (ok_body [message_update 2 (JInt 777) ''/start'']))]"
  have 1: "\<forall>x \<in> set ?xs. fst x - 0 < real_of_int 300" by simp
  have 2: "\<not> (300::real) - 0 < real_of_int 300" by simp
  have d: "deliverable ?xs = {?u}"
    by (simp add: deliverable_answer deliverable_Nil delivered_def ok_updates_def ok_body_def)
  have 3: "\<forall>u \<in> deliverable ?xs. map_option strip (event_text u) \<noteq> Some ''/start''"
    unfolding d by (simp add: run_defs)
  have 4: "\<forall>u \<in> deliverable ?xs. map_option py_str (event_chat u) \<noteq> Some ''777'' \<or>
                               map_option strip (event_text u) \<noteq> Some ''482913''"
    unfolding d by (simp add: run_defs)
  from deadline_ends_phase [OF 1 2, of py_str "''T1''" "answer (ok_body [])" ?ys "''777''" "''482913''"]
    3 4
  show ?thesis by simp
qed

section \<open>The cursor across the phases\<close>






section \<open>The offset and the ids read\<close>












section \<open>The credential store\<close>

text \<open>Reading back what was written: lines that end with their only newline.\<close>

lemma readlines_terminated_append:
  "terminated l \<Longrightarrow> readlines (l @ rest) = l # readlines rest"
proof (induction l)
  case Nil
  then show ?case by (simp add: terminated_def)
next
  case (Cons c l)
  show ?case
  proof (cases "l = []")
    case True
    with Cons.prems show ?thesis by (simp add: terminated_def)
  next
    case False
    with Cons.prems have "c \<noteq> CHR 0x0A" and "terminated l"
      by (auto simp: terminated_def)
    with Cons.IH show ?thesis by simp
  qed
qed

lemma readlines_concat:
  "\<forall>l \<in> set ls. terminated l \<Longrightarrow> readlines (concat ls) = ls"
  by (induction ls) (simp_all add: readlines_terminated_append)

lemma concat_readlines: "concat (readlines s) = s"
  by (induction s) (auto split: list.splits)

lemma readlines_eq_Nil: "readlines s = [] \<longleftrightarrow> s = []"
  by (cases s) (auto split: list.splits)

lemma readlines_all_terminated:
  "s = [] \<or> last s = CHR 0x0A \<Longrightarrow> \<forall>l \<in> set (readlines s). terminated l"
proof (induction s)
  case Nil
  then show ?case by simp
next
  case (Cons c cs)
  show ?case
  proof (cases "c = CHR 0x0A")
    case True
    from Cons.prems have "cs = [] \<or> last cs = CHR 0x0A" by (auto split: if_splits)
    with Cons.IH True show ?thesis by (simp add: terminated_def)
  next
    case False
    with Cons.prems have ne: "cs \<noteq> []" and "last cs = CHR 0x0A" by (auto split: if_splits)
    with Cons.IH have all: "\<forall>l \<in> set (readlines cs). terminated l" by simp
    from ne obtain l ls where r: "readlines cs = l # ls"
      by (cases "readlines cs") (simp_all add: readlines_eq_Nil)
    with all have "terminated l" and "\<forall>x \<in> set ls. terminated x" by simp_all
    with False r show ?thesis by (auto simp: terminated_def)
  qed
qed

text \<open>The merge loop, in closed form.\<close>

lemma chat_prefix_not_token_prefix:
  "prefix ''TELEGRAM_CHAT_ID='' l \<Longrightarrow> \<not> prefix ''TELEGRAM_BOT_TOKEN='' l"
  by (auto simp: prefix_def)

lemma merge_lines_eq:
  "merge_lines token chat_id m ls =
    \<lparr>token_found = (token_found m \<or> list_ex (prefix ''TELEGRAM_BOT_TOKEN='') ls),
     chat_id_found = (chat_id_found m \<or> list_ex (prefix ''TELEGRAM_CHAT_ID='') ls),
     new_lines = new_lines m @ map (rewrite_line token chat_id) ls\<rparr>"
proof (induction ls arbitrary: m)
  case Nil
  then show ?case by simp
next
  case (Cons l ls)
  show ?case
    using chat_prefix_not_token_prefix [of l]
    by (auto simp: Cons.IH rewrite_line_def)
qed

text \<open>Reading in text mode leaves no carriage return and changes nothing else.\<close>

lemma universal_newlines_no_cr: "CHR 0x0D \<notin> set (universal_newlines s)"
  by (induction s rule: universal_newlines.induct) auto

lemma universal_newlines_id: "CHR 0x0D \<notin> set s \<Longrightarrow> universal_newlines s = s"
  by (induction s rule: universal_newlines.induct) auto

lemma universal_newlines_eq_Nil: "universal_newlines s = [] \<longleftrightarrow> s = []"
  by (induction s rule: universal_newlines.induct) auto

lemma universal_newlines_last:
  "s \<noteq> [] \<Longrightarrow>
    last (universal_newlines s) = (if last s = CHR 0x0D then CHR 0x0A else last s)"
  by (induction s rule: universal_newlines.induct) (auto simp: universal_newlines_eq_Nil)

lemma universal_newlines_terminated:
  "content = [] \<or> last content = CHR 0x0A \<or> last content = CHR 0x0D \<Longrightarrow>
    universal_newlines content = [] \<or> last (universal_newlines content) = CHR 0x0A"
  by (cases "content = []") (auto simp: universal_newlines_last)

lemma save_env_lines:
  "save_env token chat_id (Some content) =
    concat (map (rewrite_line token chat_id) (readlines (universal_newlines content))
      @ (if list_ex (prefix ''TELEGRAM_BOT_TOKEN='') (readlines (universal_newlines content)) then []
         else [[CHR 0x0A], ''TELEGRAM_BOT_TOKEN='' @ token @ [CHR 0x0A]])
      @ (if list_ex (prefix ''TELEGRAM_CHAT_ID='') (readlines (universal_newlines content)) then []
         else [''TELEGRAM_CHAT_ID='' @ chat_id @ [CHR 0x0A]]))"
  by (simp add: save_env_def writelines_def merge_lines_eq Let_def)

lemma terminated_key_line:
  "CHR 0x0A \<notin> set key \<Longrightarrow> CHR 0x0A \<notin> set v \<Longrightarrow> terminated (key @ v @ [CHR 0x0A])"
  by (simp add: terminated_def butlast_append)

lemma terminated_rewrite_line:
  "CHR 0x0A \<notin> set token \<Longrightarrow> CHR 0x0A \<notin> set chat_id \<Longrightarrow> terminated l \<Longrightarrow>
    terminated (rewrite_line token chat_id l)"
  unfolding rewrite_line_def
  using terminated_key_line [of "''TELEGRAM_BOT_TOKEN=''" token]
    terminated_key_line [of "''TELEGRAM_CHAT_ID=''" chat_id]
  by simp

lemma readlines_save_env:
  assumes "content = [] \<or> last content = CHR 0x0A \<or> last content = CHR 0x0D"
    and "CHR 0x0A \<notin> set token" and "CHR 0x0A \<notin> set chat_id"
  shows "readlines (save_env token chat_id (Some content)) =
    map (rewrite_line token chat_id) (readlines (universal_newlines content))
      @ (if list_ex (prefix ''TELEGRAM_BOT_TOKEN='') (readlines (universal_newlines content)) then []
         else [[CHR 0x0A], ''TELEGRAM_BOT_TOKEN='' @ token @ [CHR 0x0A]])
      @ (if list_ex (prefix ''TELEGRAM_CHAT_ID='') (readlines (universal_newlines content)) then []
         else [''TELEGRAM_CHAT_ID='' @ chat_id @ [CHR 0x0A]])"
proof -
  from readlines_all_terminated [OF universal_newlines_terminated [OF assms(1)]] assms(2,3)
  have 1: "\<forall>l \<in> set (map (rewrite_line token chat_id) (readlines (universal_newlines content))).
      terminated l"
    by (simp add: terminated_rewrite_line)
  have 2: "terminated [CHR 0x0A]" by (simp add: terminated_def)
  from assms(2) have 3: "terminated (''TELEGRAM_BOT_TOKEN='' @ token @ [CHR 0x0A])"
    using terminated_key_line [of "''TELEGRAM_BOT_TOKEN=''" token] by simp
  from assms(3) have 4: "terminated (''TELEGRAM_CHAT_ID='' @ chat_id @ [CHR 0x0A])"
    using terminated_key_line [of "''TELEGRAM_CHAT_ID=''" chat_id] by simp
  show ?thesis
    unfolding save_env_lines
    by (rule readlines_concat) (use 1 2 3 4 in auto)
qed


text \<open>
  On a file that is empty or ends with a line ending, and for a token and a conversation
  id without line feed and carriage return, saving the same binding a second time changes
  nothing.
\<close>

lemma save_env_no_cr:
  assumes "CHR 0x0D \<notin> set token" and "CHR 0x0D \<notin> set chat_id"
  shows "CHR 0x0D \<notin> set (save_env token chat_id (Some content))"
proof -
  have "\<And>l. l \<in> set (readlines (universal_newlines content)) \<Longrightarrow> CHR 0x0D \<notin> set l"
  proof -
    fix l assume "l \<in> set (readlines (universal_newlines content))"
    then have "set l \<subseteq> set (concat (readlines (universal_newlines content)))" by auto
    with universal_newlines_no_cr [of content] show "CHR 0x0D \<notin> set l"
      by (auto simp: concat_readlines)
  qed
  with assms show ?thesis
    unfolding save_env_lines by (auto simp: rewrite_line_def split: if_splits)
qed

lemma rewrite_line_fixed:
  "rewrite_line token chat_id (''TELEGRAM_BOT_TOKEN='' @ token @ [CHR 0x0A])
      = ''TELEGRAM_BOT_TOKEN='' @ token @ [CHR 0x0A]"
  "rewrite_line token chat_id (''TELEGRAM_CHAT_ID='' @ chat_id @ [CHR 0x0A])
      = ''TELEGRAM_CHAT_ID='' @ chat_id @ [CHR 0x0A]"
  "rewrite_line token chat_id [CHR 0x0A] = [CHR 0x0A]"
  by (simp_all add: rewrite_line_def)

lemma rewrite_line_idem:
  "rewrite_line token chat_id (rewrite_line token chat_id l) = rewrite_line token chat_id l"
  by (simp add: rewrite_line_def)

lemma rewrite_line_keeps_keys:
  "prefix ''TELEGRAM_BOT_TOKEN='' l \<Longrightarrow> prefix ''TELEGRAM_BOT_TOKEN='' (rewrite_line token chat_id l)"
  "prefix ''TELEGRAM_CHAT_ID='' l \<Longrightarrow> prefix ''TELEGRAM_CHAT_ID='' (rewrite_line token chat_id l)"
  using chat_prefix_not_token_prefix [of l] by (auto simp: rewrite_line_def)

lemma save_env_idempotent_terminated:
  assumes "content = [] \<or> last content = CHR 0x0A \<or> last content = CHR 0x0D"
    and "CHR 0x0A \<notin> set token" and "CHR 0x0A \<notin> set chat_id"
    and "CHR 0x0D \<notin> set token" and "CHR 0x0D \<notin> set chat_id"
  shows "save_env token chat_id (Some (save_env token chat_id (Some content)))
      = save_env token chat_id (Some content)"
proof -
  let ?L' = "readlines (save_env token chat_id (Some content))"
  note L' = readlines_save_env [OF assms(1,2,3)]
  have u: "universal_newlines (save_env token chat_id (Some content))
      = save_env token chat_id (Some content)"
    by (rule universal_newlines_id) (rule save_env_no_cr [OF assms(4,5)])
  have t: "list_ex (prefix ''TELEGRAM_BOT_TOKEN='') ?L'"
    unfolding L' by (auto simp: list_ex_iff intro: rewrite_line_keeps_keys)
  have c: "list_ex (prefix ''TELEGRAM_CHAT_ID='') ?L'"
    unfolding L' by (auto simp: list_ex_iff intro: rewrite_line_keeps_keys)
  have m: "map (rewrite_line token chat_id) ?L' = ?L'"
    unfolding L' by (simp add: rewrite_line_idem rewrite_line_fixed [simplified])
  have "save_env token chat_id (Some (save_env token chat_id (Some content))) = concat ?L'"
    by (subst save_env_lines) (simp only: u t c m if_True append_Nil2)
  then show ?thesis by (simp add: concat_readlines)
qed

text \<open>
  Claim C6, as the code has it, for a file that is empty or ends with a line ending and a
  token and a conversation id without line feed. The lines of the file after saving are
  the lines that reading in text mode delivered (every line ending, be it a carriage
  return, a carriage return with a line feed or a line feed, is a line feed then), in
  their order, where every line that starts with \<^verbatim>\<open>TELEGRAM_BOT_TOKEN=\<close> or
  \<^verbatim>\<open>TELEGRAM_CHAT_ID=\<close> carries the new value and every other line is unchanged; then,
  when no line started with \<^verbatim>\<open>TELEGRAM_BOT_TOKEN=\<close>, an empty line and the token line;
  then, when no line started with \<^verbatim>\<open>TELEGRAM_CHAT_ID=\<close>, the conversation line. A file
  without carriage return is delivered as it is, so that its other lines are kept
  character for character.
\<close>

theorem store_merge_on_terminated_file:
  assumes "content = [] \<or> last content = CHR 0x0A \<or> last content = CHR 0x0D"
    and "CHR 0x0A \<notin> set token" and "CHR 0x0A \<notin> set chat_id"
  shows "readlines (save_env token chat_id (Some content)) =
      map (rewrite_line token chat_id) (readlines (universal_newlines content))
        @ (if list_ex (prefix ''TELEGRAM_BOT_TOKEN='') (readlines (universal_newlines content))
           then [] else [[CHR 0x0A], ''TELEGRAM_BOT_TOKEN='' @ token @ [CHR 0x0A]])
        @ (if list_ex (prefix ''TELEGRAM_CHAT_ID='') (readlines (universal_newlines content))
           then [] else [''TELEGRAM_CHAT_ID='' @ chat_id @ [CHR 0x0A]]) \<and>
    (CHR 0x0D \<notin> set content \<longrightarrow> universal_newlines content = content)"
  using readlines_save_env [OF assms] universal_newlines_id [of content] by simp

text \<open>
  The example of the specification: the lines \<^verbatim>\<open>A=1\<close>, \<^verbatim>\<open>TELEGRAM_BOT_TOKEN=old\<close>,
  \<^verbatim>\<open>B=2\<close> and the binding of token \<^verbatim>\<open>new\<close> to conversation \<^verbatim>\<open>555\<close>. And a file with
  other line endings: \<^verbatim>\<open>A=1\<close> ended by a carriage return and a line feed, then an old
  conversation line ended by a carriage return.
\<close>

theorem store_merge_on_terminated_file_witness:
  "last ''A=1\<newline>TELEGRAM_BOT_TOKEN=old\<newline>B=2\<newline>'' = CHR 0x0A \<and>
   CHR 0x0A \<notin> set ''new'' \<and> CHR 0x0A \<notin> set ''555'' \<and>
   CHR 0x0D \<notin> set ''A=1\<newline>TELEGRAM_BOT_TOKEN=old\<newline>B=2\<newline>'' \<and>
   readlines ''A=1\<newline>TELEGRAM_BOT_TOKEN=old\<newline>B=2\<newline>''
     = [''A=1\<newline>'', ''TELEGRAM_BOT_TOKEN=old\<newline>'', ''B=2\<newline>''] \<and>
   readlines (save_env ''new'' ''555'' (Some ''A=1\<newline>TELEGRAM_BOT_TOKEN=old\<newline>B=2\<newline>''))
     = [''A=1\<newline>'', ''TELEGRAM_BOT_TOKEN=new\<newline>'', ''B=2\<newline>'',
        ''TELEGRAM_CHAT_ID=555\<newline>''] \<and>
   last (''A=1'' @ [CHR 0x0D, CHR 0x0A] @ ''TELEGRAM_CHAT_ID=9'' @ [CHR 0x0D]) = CHR 0x0D \<and>
   readlines (save_env ''new'' ''555''
       (Some (''A=1'' @ [CHR 0x0D, CHR 0x0A] @ ''TELEGRAM_CHAT_ID=9'' @ [CHR 0x0D])))
     = [''A=1\<newline>'', ''TELEGRAM_CHAT_ID=555\<newline>'', ''\<newline>'',
        ''TELEGRAM_BOT_TOKEN=new\<newline>'']"
proof -
  let ?c = "''A=1\<newline>TELEGRAM_BOT_TOKEN=old\<newline>B=2\<newline>''"
  let ?d = "''A=1'' @ [CHR 0x0D, CHR 0x0A] @ ''TELEGRAM_CHAT_ID=9'' @ [CHR 0x0D]"
  have 1: "?c = [] \<or> last ?c = CHR 0x0A \<or> last ?c = CHR 0x0D" by simp
  have 2: "CHR 0x0A \<notin> set ''new''" by simp
  have 3: "CHR 0x0A \<notin> set ''555''" by simp
  have 4: "CHR 0x0D \<notin> set ?c" by simp
  have 5: "?d = [] \<or> last ?d = CHR 0x0A \<or> last ?d = CHR 0x0D" by simp
  have r: "readlines ?c = [''A=1\<newline>'', ''TELEGRAM_BOT_TOKEN=old\<newline>'', ''B=2\<newline>'']"
    by simp
  have u: "readlines (universal_newlines ?d) = [''A=1\<newline>'', ''TELEGRAM_CHAT_ID=9\<newline>'']"
    by simp
  from store_merge_on_terminated_file [OF 1 2 3] store_merge_on_terminated_file [OF 5 2 3]
    r u 2 3 4
  show ?thesis by (simp add: rewrite_line_def)
qed

text \<open>
  The claim as the specification states it fails: when the token key is absent the code
  writes \<^verbatim>\<open>'\\nTELEGRAM_BOT_TOKEN=...'\<close>, so the file gains an empty line that
  \<open>spec_store\<close>, which appends the key as one new line, does not have.
\<close>

theorem store_adds_blank_line_counterexample:
  "readlines (save_env ''new'' ''555'' (Some ''A=1\<newline>''))
     \<noteq> spec_store ''new'' ''555'' (readlines ''A=1\<newline>'') \<and>
   readlines (save_env ''new'' ''555'' (Some ''A=1\<newline>''))
     = [''A=1\<newline>'', ''\<newline>'', ''TELEGRAM_BOT_TOKEN=new\<newline>'', ''TELEGRAM_CHAT_ID=555\<newline>''] \<and>
   spec_store ''new'' ''555'' (readlines ''A=1\<newline>'')
     = [''A=1\<newline>'', ''TELEGRAM_BOT_TOKEN=new\<newline>'', ''TELEGRAM_CHAT_ID=555\<newline>'']"
  by (simp add: save_env_def writelines_def spec_store_def)

text \<open>
  Claim C7 at a file whose last line has no newline and that holds the token key but not
  the conversation key. The first save glues \<^verbatim>\<open>TELEGRAM_CHAT_ID=555\<close> to the last line
  \<^verbatim>\<open>B=2\<close>; no line of the result starts with the key, so the second save appends the
  conversation line once more. Saving twice is not saving once.
\<close>

theorem save_twice_differs_without_final_newline:
  "save_env ''new'' ''555''
       (Some (save_env ''new'' ''555'' (Some ''TELEGRAM_BOT_TOKEN=old\<newline>B=2'')))
     \<noteq> save_env ''new'' ''555'' (Some ''TELEGRAM_BOT_TOKEN=old\<newline>B=2'') \<and>
   save_env ''new'' ''555'' (Some ''TELEGRAM_BOT_TOKEN=old\<newline>B=2'')
     = ''TELEGRAM_BOT_TOKEN=new\<newline>B=2TELEGRAM_CHAT_ID=555\<newline>'' \<and>
   save_env ''new'' ''555''
       (Some (save_env ''new'' ''555'' (Some ''TELEGRAM_BOT_TOKEN=old\<newline>B=2'')))
     = ''TELEGRAM_BOT_TOKEN=new\<newline>B=2TELEGRAM_CHAT_ID=555\<newline>TELEGRAM_CHAT_ID=555\<newline>''"
  by (simp add: save_env_def writelines_def)

end
